theory Spec2Isabelle
  imports Main "HOL-Library.Word"
begin

unbundle bit_operations_syntax

section \<open>Data model\<close>

text \<open>
  The scheduler of SPOS (os_scheduler.c) and its five scheduling strategies
  (os_scheduling_strategies.c), for an 8-bit AVR target. All identifiers are the
  ones of the C sources. The C types \<^verbatim>\<open>uint8_t\<close> and pointers become 8-bit and
  16-bit words.
\<close>

type_synonym ProcessID = "8 word"
type_synonym Priority = "8 word"
type_synonym StackChecksum = "8 word"
type_synonym address = "16 word"

text \<open>A \<^verbatim>\<open>Program *\<close> is the address of the program's entry function; NULL is 0.\<close>

type_synonym Program = address

datatype ProcessState = OS_PS_UNUSED | OS_PS_READY | OS_PS_RUNNING

datatype SchedulingStrategy =
  OS_SS_EVEN | OS_SS_RANDOM | OS_SS_RUN_TO_COMPLETION | OS_SS_ROUND_ROBIN | OS_SS_INACTIVE_AGING

text \<open>
  The struct Process. The union StackPointer (members \<^verbatim>\<open>as_int\<close> and
  \<^verbatim>\<open>as_ptr\<close>) is one 16-bit address.
\<close>

record Process =
  program :: Program
  state :: ProcessState
  sp :: address
  priority :: Priority
  checksum :: StackChecksum

text \<open>
  The struct SchedulingInformation. The element type Age of the array \<^verbatim>\<open>age\<close> is
  declared in a header that is not part of the sources; it is a type parameter here,
  instantiated by an unsigned word type of any width wherever ages are added or compared.
\<close>

record 'age SchedulingInformation =
  timeSlice :: "8 word"
  age :: "'age list"

text \<open>
  What can stop a call from returning normally. The first three are the fatal errors
  reported through \<^verbatim>\<open>os_errorPStr\<close>; the last two stand for undefined behaviour of
  the C program (an array index outside the array, a read through NULL).
\<close>

datatype error =
  CriticalSectionOverflow | CriticalSectionUnderflow | ChecksumMismatch
  | OutOfRange | NullPointer

text \<open>
  Compile-time constants and macros of headers that are not part of the sources
  (defines.h, os_scheduler.h), taken as parameters.
\<close>

record platform =
  INVALID_PROCESS :: ProcessID
  PROCESS_STACK_BOTTOM :: "ProcessID \<Rightarrow> address"
  STACK_SIZE_PROC :: nat
  BOTTOM_OF_ISR_STACK :: address
  DEFAULT_PRIORITY :: Priority
  idle :: Program

text \<open>
  Modelled from the spec: MAX_NUMBER_OF_PROCESSES (defines.h is not part of the
  sources). The spec gives the canonical N_MAX = 8, with slot 0 reserved for idle;
  the cyclic search of os_Scheduler_Even hard-codes the last slot as 7.
\<close>

definition MAX_NUMBER_OF_PROCESSES :: nat where
  "MAX_NUMBER_OF_PROCESSES = 8"

text \<open>Bit number of the timer 2 compare-match A interrupt enable in TIMSK2 (avr/io.h).\<close>

definition OCIE2A :: nat where
  "OCIE2A = 1"

text \<open>
  The global variables of both C files, the hardware registers SREG, TIMSK2 and SP, the
  register file r0..r31 and the SRAM.
\<close>

record 'age kernel =
  os_processes :: "Process list"
  currentProcess :: "8 word"
  currentProc :: ProcessID
  actual :: SchedulingStrategy
  criticalSectionCount :: "8 word"
  schedulingInfo :: "'age SchedulingInformation"
  SREG :: "8 word"
  TIMSK2 :: "8 word"
  SP :: address
  regs :: "nat \<Rightarrow> 8 word"
  mem :: "address \<Rightarrow> 8 word"

section \<open>Critical sections\<close>

text \<open>
  Modelled from the spec: \<^verbatim>\<open>os_errorPStr\<close> (os_core is not part of the sources) is a
  non-returning error sink. A call of it ends the enclosing operation with \<^verbatim>\<open>Inl\<close> of
  the error.
\<close>

definition os_enterCriticalSection :: "'age kernel \<Rightarrow> error + 'age kernel" where
  "os_enterCriticalSection k =
     (let GIEB = drop_bit 7 (SREG k);
          k1 = k\<lparr>SREG := SREG k AND 0x7F\<rparr>
      in if criticalSectionCount k1 = 255 then Inl CriticalSectionOverflow
         else
           let k2 = k1\<lparr>criticalSectionCount := criticalSectionCount k1 + 1\<rparr>;
               k3 = k2\<lparr>TIMSK2 := TIMSK2 k2 AND NOT (push_bit OCIE2A 1)\<rparr>
           in Inr (k3\<lparr>SREG := SREG k3 OR push_bit 7 GIEB\<rparr>))"

definition os_leaveCriticalSection :: "'age kernel \<Rightarrow> error + 'age kernel" where
  "os_leaveCriticalSection k =
     (let GIEB = drop_bit 7 (SREG k);
          k1 = k\<lparr>SREG := SREG k AND 0x7F\<rparr>
      in if criticalSectionCount k1 = 0 then Inl CriticalSectionUnderflow
         else
           let k2 = k1\<lparr>criticalSectionCount := criticalSectionCount k1 - 1\<rparr>;
               k3 = (if criticalSectionCount k2 = 0
                     then k2\<lparr>TIMSK2 := TIMSK2 k2 OR push_bit OCIE2A 1\<rparr> else k2)
           in Inr (k3\<lparr>SREG := SREG k3 OR push_bit 7 GIEB\<rparr>))"

text \<open>The statement sequence \<^verbatim>\<open>os_enterCriticalSection(); os_leaveCriticalSection();\<close>.\<close>

definition enter_then_leave :: "'age kernel \<Rightarrow> error + 'age kernel" where
  "enter_then_leave k =
     (case os_enterCriticalSection k of
        Inl e \<Rightarrow> Inl e
      | Inr k1 \<Rightarrow> os_leaveCriticalSection k1)"

section \<open>Strategy selection and the current process\<close>

definition os_getCurrentProc :: "'age kernel \<Rightarrow> ProcessID" where
  "os_getCurrentProc k = currentProc k"

definition os_getSchedulingStrategy :: "'age kernel \<Rightarrow> SchedulingStrategy" where
  "os_getSchedulingStrategy k = actual k"

text \<open>
  The while loop of os_resetSchedulingInformation: the iterator is never advanced, so
  the loop clears \<^verbatim>\<open>age[iterator]\<close> and stops at the next test. The array
  \<^verbatim>\<open>age\<close> has MAX_NUMBER_OF_PROCESSES entries, so index 0 is inside it.
\<close>

function reset_age_loop :: "'a::len word list \<Rightarrow> nat \<Rightarrow> 'a word list" where
  "reset_age_loop a iterator =
     (if iterator < length a \<and> a ! iterator \<noteq> 0
      then reset_age_loop (a[iterator := 0]) iterator
      else a)"
  by pat_completeness auto
termination
  by (relation "measure (\<lambda>(a, i). if i < length a \<and> a ! i \<noteq> 0 then 1 else 0)") auto

declare reset_age_loop.simps [simp del]

text \<open>
  The source assigns \<^verbatim>\<open>os_getCurrentProc()->priority\<close> to the time slice, which
  applies \<^verbatim>\<open>->\<close> to a ProcessID (its comment: "Don't know how to access priority of
  currentProc"). The expression has no meaning in C; the value it yields is the
  parameter \<open>cur_priority\<close>.
\<close>

definition os_resetSchedulingInformation ::
  "Priority \<Rightarrow> SchedulingStrategy \<Rightarrow> 'a::len word kernel \<Rightarrow> 'a word kernel" where
  "os_resetSchedulingInformation cur_priority strategy k =
     (let k1 = (if strategy = OS_SS_ROUND_ROBIN
                then k\<lparr>schedulingInfo := (schedulingInfo k)\<lparr>timeSlice := cur_priority\<rparr>\<rparr>
                else k);
          k2 = (if strategy = OS_SS_INACTIVE_AGING
                then k1\<lparr>schedulingInfo := (schedulingInfo k1)
                        \<lparr>age := reset_age_loop (age (schedulingInfo k1)) 0\<rparr>\<rparr>
                else k1)
      in k2)"

definition os_resetProcessSchedulingInformation ::
  "nat \<Rightarrow> 'a::len word kernel \<Rightarrow> 'a word kernel" where
  "os_resetProcessSchedulingInformation pid k =
     k\<lparr>schedulingInfo := (schedulingInfo k)\<lparr>age := (age (schedulingInfo k))[pid := 0]\<rparr>\<rparr>"

definition os_setSchedulingStrategy ::
  "Priority \<Rightarrow> SchedulingStrategy \<Rightarrow> 'a::len word kernel \<Rightarrow> 'a word kernel" where
  "os_setSchedulingStrategy cur_priority strategy k =
     os_resetSchedulingInformation cur_priority strategy k"

section \<open>Starting a program\<close>

text \<open>
  The search loop of os_exec: the first slot from \<^verbatim>\<open>pid\<close> on whose state is
  OS_PS_UNUSED, or MAX_NUMBER_OF_PROCESSES when there is none.
\<close>

function find_unused :: "Process list \<Rightarrow> nat \<Rightarrow> nat" where
  "find_unused ps pid =
     (if pid < MAX_NUMBER_OF_PROCESSES
      then (if state (ps ! pid) = OS_PS_UNUSED then pid else find_unused ps (Suc pid))
      else pid)"
  by pat_completeness auto
termination
  by (relation "measure (\<lambda>(ps, pid). MAX_NUMBER_OF_PROCESSES - pid)") auto

declare find_unused.simps [simp del]

text \<open>
  \<^verbatim>\<open>*(os_processes[pid].sp.as_ptr--) = b\<close>: store at the slot's saved stack pointer,
  then decrement it.
\<close>

definition push_on_process_stack :: "nat \<Rightarrow> 8 word \<Rightarrow> 'age kernel \<Rightarrow> 'age kernel" where
  "push_on_process_stack pid b k =
     (let p = os_processes k ! pid
      in k\<lparr>mem := (mem k)(sp p := b),
            os_processes := (os_processes k)[pid := p\<lparr>sp := sp p - 1\<rparr>]\<rparr>)"

definition os_exec ::
  "platform \<Rightarrow> Program \<Rightarrow> Priority \<Rightarrow> 'a::len word kernel \<Rightarrow> error + (ProcessID \<times> 'a word kernel)" where
  "os_exec pf prog prio k =
     (case os_enterCriticalSection k of
        Inl e \<Rightarrow> Inl e
      | Inr k1 \<Rightarrow>
          if prog = 0 then Inr (INVALID_PROCESS pf, k1)
          else
            let pid = find_unused (os_processes k1) 0
            in if pid = MAX_NUMBER_OF_PROCESSES then Inr (INVALID_PROCESS pf, k1)
               else
                 let k2 = k1\<lparr>os_processes := (os_processes k1)
                            [pid := (os_processes k1 ! pid)
                               \<lparr>program := prog, state := OS_PS_READY, sp := PROCESS_STACK_BOTTOM pf (of_nat pid),
                                priority := prio, checksum := 0\<rparr>]\<rparr>;
                     k3 = os_resetProcessSchedulingInformation pid k2;
                     k4 = push_on_process_stack pid (ucast prog) k3;
                     k5 = push_on_process_stack pid (ucast (drop_bit 8 prog)) k4;
                     k6 = fold (\<lambda>i. push_on_process_stack pid 0) [0..<33] k5
                 in case os_leaveCriticalSection k6 of
                      Inl e \<Rightarrow> Inl e
                    | Inr k7 \<Rightarrow> Inr (of_nat pid, k7))"

section \<open>Scheduling strategies\<close>

text \<open>
  The counting loop that opens four of the strategies: the number of slots
  \<^verbatim>\<open>i < MAX_NUMBER_OF_PROCESSES\<close> with state OS_PS_READY, in a \<^verbatim>\<open>uint8_t\<close>.
\<close>

definition count_ready :: "Process list \<Rightarrow> 8 word" where
  "count_ready processes =
     fold (\<lambda>i numberOfReadyProcs.
             if state (processes ! i) = OS_PS_READY then numberOfReadyProcs + 1
             else numberOfReadyProcs)
          [0..<MAX_NUMBER_OF_PROCESSES] 0"

text \<open>
  The \<^verbatim>\<open>while(1)\<close> loop of os_Scheduler_Even and os_Scheduler_RunToCompletion: advance
  \<^verbatim>\<open>current\<close> in the cycle 1, 2, ..., 7, 1 until a ready slot is met. \<^verbatim>\<open>None\<close> is a
  loop that never ends.
\<close>

partial_function (option) next_ready :: "Process list \<Rightarrow> ProcessID \<Rightarrow> (error + ProcessID) option" where
  "next_ready processes current =
     (let current' = (if current = 7 then 1 else current + 1)
      in if length processes \<le> unat current' then Some (Inl OutOfRange)
         else if state (processes ! unat current') = OS_PS_READY then Some (Inr current')
         else next_ready processes current')"

declare next_ready.simps [code]

definition os_Scheduler_Even :: "Process list \<Rightarrow> ProcessID \<Rightarrow> (error + ProcessID) option" where
  "os_Scheduler_Even processes current =
     (if count_ready processes = 1 then Some (Inr 0)
      else next_ready processes current)"

text \<open>The second loop of os_Scheduler_Random: the ids of the ready slots, ascending.\<close>

definition ready_array :: "Process list \<Rightarrow> 8 word list" where
  "ready_array processes =
     fold (\<lambda>i array. if state (processes ! i) = OS_PS_READY then array @ [of_nat i] else array)
          [0..<MAX_NUMBER_OF_PROCESSES] []"

text \<open>
  os_Scheduler_Random; \<open>rand\<close> is the value of \<^verbatim>\<open>rand()\<close>, which is not negative. After
  the second loop \<^verbatim>\<open>numberOfReadyProcs\<close> is the length of the array. With no ready slot
  the divisor is -1 in C, the remainder 0 and the index 1, outside the empty array.
\<close>

definition os_Scheduler_Random :: "nat \<Rightarrow> Process list \<Rightarrow> ProcessID \<Rightarrow> error + ProcessID" where
  "os_Scheduler_Random rand processes current =
     (if count_ready processes = 1 then Inr 0
      else
        let array = ready_array processes;
            numberOfReadyProcs = length array;
            index = (if numberOfReadyProcs = 0 then 1
                     else rand mod (numberOfReadyProcs - 1) + 1)
        in if index < length array then Inr (array ! index) else Inl OutOfRange)"

text \<open>
  The last loop of os_Scheduler_RoundRobin. It compares the priority of slot \<^verbatim>\<open>i\<close> with
  the slot number held in \<^verbatim>\<open>processWithHighestPriority\<close>, and never looks at the state.
\<close>

definition highest_priority_scan :: "Process list \<Rightarrow> nat" where
  "highest_priority_scan processes =
     fold (\<lambda>i processWithHighestPriority.
             if processWithHighestPriority < unat (priority (processes ! i)) then i
             else processWithHighestPriority)
          [0..<MAX_NUMBER_OF_PROCESSES] 0"

definition os_Scheduler_RoundRobin ::
  "Process list \<Rightarrow> ProcessID \<Rightarrow> 'age SchedulingInformation \<Rightarrow>
   error + (ProcessID \<times> 'age SchedulingInformation)" where
  "os_Scheduler_RoundRobin processes current si =
     (if length processes \<le> unat current then Inl OutOfRange
      else if state (processes ! unat current) = OS_PS_READY \<and> 0 < timeSlice si
      then Inr (current, si\<lparr>timeSlice := timeSlice si - 1\<rparr>)
      else if count_ready processes = 1 then Inr (0, si)
      else Inr (of_nat (highest_priority_scan processes), si))"

text \<open>The first loop of os_Scheduler_InactiveAging: every ready slot ages by its priority.\<close>

definition age_ready :: "Process list \<Rightarrow> 'a::len word list \<Rightarrow> 'a word list" where
  "age_ready processes a =
     fold (\<lambda>iterator a.
             if state (processes ! iterator) = OS_PS_READY
             then a[iterator := a ! iterator + ucast (priority (processes ! iterator))]
             else a)
          [0..<MAX_NUMBER_OF_PROCESSES] a"

text \<open>The second loop of os_Scheduler_InactiveAging, with its three nested tests.\<close>

definition oldest :: "Process list \<Rightarrow> 'a::len word list \<Rightarrow> nat" where
  "oldest processes a =
     fold (\<lambda>iterator nextProcess.
             if state (processes ! iterator) = OS_PS_READY \<and> a ! nextProcess \<le> a ! iterator
             then
               (if a ! iterator = a ! nextProcess \<and>
                   priority (processes ! nextProcess) \<le> priority (processes ! iterator)
                then (if priority (processes ! nextProcess) < priority (processes ! iterator)
                      then iterator else nextProcess)
                else (if a ! nextProcess < a ! iterator then iterator else nextProcess))
             else nextProcess)
          [0..<MAX_NUMBER_OF_PROCESSES] 0"

definition os_Scheduler_InactiveAging ::
  "Process list \<Rightarrow> ProcessID \<Rightarrow> 'a::len word SchedulingInformation \<Rightarrow>
   ProcessID \<times> 'a word SchedulingInformation" where
  "os_Scheduler_InactiveAging processes current si =
     (let a = age_ready processes (age si);
          nextProcess = oldest processes a
      in (of_nat nextProcess, si\<lparr>age := a[nextProcess := 0]\<rparr>))"

definition os_Scheduler_RunToCompletion ::
  "Process list \<Rightarrow> ProcessID \<Rightarrow> (error + ProcessID) option" where
  "os_Scheduler_RunToCompletion processes current =
     (if length processes \<le> unat current then Some (Inl OutOfRange)
      else if state (processes ! unat current) = OS_PS_READY then Some (Inr current)
      else if count_ready processes = 1 then Some (Inr 0)
      else next_ready processes current)"

section \<open>The scheduler interrupt\<close>

text \<open>\<^verbatim>\<open>push\<close> of the AVR: store at SP, then decrement SP.\<close>

definition push_byte :: "8 word \<Rightarrow> 'age kernel \<Rightarrow> 'age kernel" where
  "push_byte b k = k\<lparr>SP := SP k - 1, mem := (mem k)(SP k := b)\<rparr>"

text \<open>
  Modelled from the spec: saveContext and restoreContext (macros of os_scheduler.h, which
  is not part of the sources). saveContext pushes the register file r0..r31 and the flags
  word SREG, 33 bytes, onto the active stack; restoreContext pops them again.
\<close>

definition saveContext :: "'age kernel \<Rightarrow> 'age kernel" where
  "saveContext k = fold push_byte (map (regs k) [0..<32] @ [SREG k]) k"

definition restoreContext :: "'age kernel \<Rightarrow> 'age kernel" where
  "restoreContext k =
     k\<lparr>SREG := mem k (SP k + 1),
       regs := (\<lambda>r. if r < 32 then mem k (SP k + 33 - of_nat r) else regs k r),
       SP := SP k + 33\<rparr>"

text \<open>
  The loop of os_getStackChecksum. The counter \<^verbatim>\<open>p\<close> is a \<^verbatim>\<open>uint8_t\<close>, so the loop
  ends only when STACK_SIZE_PROC is below 255.
\<close>

partial_function (option) checksum_loop ::
  "platform \<Rightarrow> (address \<Rightarrow> 8 word) \<Rightarrow> ProcessID \<Rightarrow> 8 word \<Rightarrow> 8 word \<Rightarrow> StackChecksum option" where
  "checksum_loop pf m pid p c =
     (if unat p \<le> STACK_SIZE_PROC pf
      then checksum_loop pf m pid (p + 1) (c XOR m (PROCESS_STACK_BOTTOM pf pid + ucast p))
      else Some c)"

declare checksum_loop.simps [code]

definition os_getStackChecksum ::
  "platform \<Rightarrow> (address \<Rightarrow> 8 word) \<Rightarrow> ProcessID \<Rightarrow> StackChecksum option" where
  "os_getStackChecksum pf m pid = checksum_loop pf m pid 0 0"

text \<open>Assignments to one field of \<^verbatim>\<open>os_processes[pid]\<close>.\<close>

definition set_sp :: "ProcessID \<Rightarrow> address \<Rightarrow> 'age kernel \<Rightarrow> 'age kernel" where
  "set_sp pid v k =
     k\<lparr>os_processes := (os_processes k)[unat pid := (os_processes k ! unat pid)\<lparr>sp := v\<rparr>]\<rparr>"

definition set_checksum :: "ProcessID \<Rightarrow> StackChecksum \<Rightarrow> 'age kernel \<Rightarrow> 'age kernel" where
  "set_checksum pid v k =
     k\<lparr>os_processes := (os_processes k)[unat pid := (os_processes k ! unat pid)\<lparr>checksum := v\<rparr>]\<rparr>"

definition set_state :: "ProcessID \<Rightarrow> ProcessState \<Rightarrow> 'age kernel \<Rightarrow> 'age kernel" where
  "set_state pid v k =
     k\<lparr>os_processes := (os_processes k)[unat pid := (os_processes k ! unat pid)\<lparr>state := v\<rparr>]\<rparr>"

text \<open>
  The calls of the strategy functions in the \<^verbatim>\<open>switch\<close> of the interrupt routine, with
  the scheduling information each of them leaves behind.
\<close>

definition with_info ::
  "'age SchedulingInformation \<Rightarrow> (error + ProcessID) option \<Rightarrow>
   (error + ProcessID \<times> 'age SchedulingInformation) option" where
  "with_info si r =
     (case r of None \<Rightarrow> None | Some (Inl e) \<Rightarrow> Some (Inl e) | Some (Inr p) \<Rightarrow> Some (Inr (p, si)))"

definition call_strategy ::
  "nat \<Rightarrow> 'a::len word kernel \<Rightarrow> (error + ProcessID \<times> 'a word SchedulingInformation) option" where
  "call_strategy rand k =
     (case os_getSchedulingStrategy k of
        OS_SS_EVEN \<Rightarrow>
          with_info (schedulingInfo k) (os_Scheduler_Even (os_processes k) (currentProcess k))
      | OS_SS_RANDOM \<Rightarrow>
          with_info (schedulingInfo k)
            (Some (os_Scheduler_Random rand (os_processes k) (currentProcess k)))
      | OS_SS_RUN_TO_COMPLETION \<Rightarrow>
          with_info (schedulingInfo k)
            (os_Scheduler_RunToCompletion (os_processes k) (currentProcess k))
      | OS_SS_ROUND_ROBIN \<Rightarrow>
          Some (os_Scheduler_RoundRobin (os_processes k) (currentProcess k) (schedulingInfo k))
      | OS_SS_INACTIVE_AGING \<Rightarrow>
          Some (Inr (os_Scheduler_InactiveAging (os_processes k) (currentProcess k)
                       (schedulingInfo k))))"

text \<open>
  The interrupt routine of TIMER2_COMPA_vect. \<open>input\<close> is the value of os_getInput(),
  \<open>taskman\<close> what os_waitForNoInput() and os_taskManMain() (not part of the sources) do to
  the state, \<open>rand\<close> the value of rand(). The result is \<^verbatim>\<open>None\<close> when a loop of
  the routine never ends.
\<close>

definition ISR ::
  "platform \<Rightarrow> ('a::len word kernel \<Rightarrow> 'a word kernel) \<Rightarrow> 8 word \<Rightarrow> nat \<Rightarrow> 'a word kernel \<Rightarrow>
   (error + 'a word kernel) option" where
  "ISR pf taskman input rand k =
     (let k1 = saveContext k
      in if length (os_processes k1) \<le> unat (currentProcess k1) then Some (Inl OutOfRange)
         else
           let k2 = set_sp (currentProcess k1) (SP k1) k1;
               k3 = k2\<lparr>SP := BOTTOM_OF_ISR_STACK pf\<rparr>
           in case os_getStackChecksum pf (mem k3) (currentProcess k3) of
                None \<Rightarrow> None
              | Some c \<Rightarrow>
                  let k4 = set_checksum (currentProcess k3) c k3;
                      k5 = (if input = 9 then taskman k4 else k4)
                  in if length (os_processes k5) \<le> unat (currentProcess k5)
                     then Some (Inl OutOfRange)
                     else
                       let k6 = set_state (currentProcess k5) OS_PS_READY k5
                       in case call_strategy rand k6 of
                            None \<Rightarrow> None
                          | Some (Inl e) \<Rightarrow> Some (Inl e)
                          | Some (Inr (next, si)) \<Rightarrow>
                              if length (os_processes k6) \<le> unat next then Some (Inl OutOfRange)
                              else
                                let k7 = set_state next OS_PS_RUNNING (k6\<lparr>schedulingInfo := si\<rparr>);
                                    k8 = k7\<lparr>SP := sp (os_processes k7 ! unat (currentProcess k7))\<rparr>
                                in case os_getStackChecksum pf (mem k8) (currentProcess k8) of
                                     None \<Rightarrow> None
                                   | Some c' \<Rightarrow>
                                       if checksum (os_processes k8 ! unat (currentProcess k8)) \<noteq> c'
                                       then Some (Inl ChecksumMismatch)
                                       else Some (Inr (restoreContext k8)))"

section \<open>Boot\<close>

definition os_startScheduler :: "'age kernel \<Rightarrow> 'age kernel" where
  "os_startScheduler k =
     (let k1 = k\<lparr>currentProc := 0\<rparr>;
          k2 = set_state 0 OS_PS_RUNNING k1;
          k3 = k2\<lparr>SP := sp (os_processes k2 ! 0)\<rparr>
      in restoreContext k3)"

text \<open>The while loop of os_initScheduler over the autostart list.\<close>

fun exec_autostart ::
  "platform \<Rightarrow> Program list \<Rightarrow> 'a::len word kernel \<Rightarrow> error + 'a word kernel" where
  "exec_autostart pf [] k = Inr k"
| "exec_autostart pf (prog # autostart) k =
     (case os_exec pf prog (DEFAULT_PRIORITY pf) k of
        Inl e \<Rightarrow> Inl e
      | Inr (pid, k') \<Rightarrow> exec_autostart pf autostart k')"

text \<open>
  os_initScheduler; \<open>autostart\<close> is the list of programs behind \<^verbatim>\<open>autostart_head\<close>.
  The source reads \<^verbatim>\<open>autostart_head->program\<close> without a test for NULL.
\<close>

definition os_initScheduler ::
  "platform \<Rightarrow> Program list \<Rightarrow> 'a::len word kernel \<Rightarrow> error + 'a word kernel" where
  "os_initScheduler pf autostart k =
     (let k1 = k\<lparr>os_processes :=
                   fold (\<lambda>i ps. ps[i := (ps ! i)\<lparr>state := OS_PS_UNUSED\<rparr>])
                        [0..<MAX_NUMBER_OF_PROCESSES] (os_processes k)\<rparr>
      in case autostart of
           [] \<Rightarrow> Inl NullPointer
         | prog # rest \<Rightarrow>
             (case exec_autostart pf (if prog = idle pf then rest else autostart) k1 of
                Inl e \<Rightarrow> Inl e
              | Inr k2 \<Rightarrow>
                  (case os_exec pf (idle pf) (DEFAULT_PRIORITY pf) k2 of
                     Inl e \<Rightarrow> Inl e
                   | Inr (pid, k3) \<Rightarrow> Inr k3)))"

section \<open>Runs of the system\<close>

text \<open>The operations of the scheduler module, and the timer tick.\<close>

datatype event =
  Tick "8 word" nat
  | Exec Program Priority
  | StartScheduler
  | InitScheduler "Program list"
  | SetSchedulingStrategy Priority SchedulingStrategy
  | EnterCriticalSection
  | LeaveCriticalSection

definition step ::
  "platform \<Rightarrow> ('a::len word kernel \<Rightarrow> 'a word kernel) \<Rightarrow> event \<Rightarrow> 'a word kernel \<Rightarrow>
   (error + 'a word kernel) option" where
  "step pf taskman ev k =
     (case ev of
        Tick input rand \<Rightarrow> ISR pf taskman input rand k
      | Exec prog prio \<Rightarrow>
          (case os_exec pf prog prio k of Inl e \<Rightarrow> Some (Inl e) | Inr (pid, k') \<Rightarrow> Some (Inr k'))
      | StartScheduler \<Rightarrow> Some (Inr (os_startScheduler k))
      | InitScheduler autostart \<Rightarrow> Some (os_initScheduler pf autostart k)
      | SetSchedulingStrategy v s \<Rightarrow> Some (Inr (os_setSchedulingStrategy v s k))
      | EnterCriticalSection \<Rightarrow> Some (os_enterCriticalSection k)
      | LeaveCriticalSection \<Rightarrow> Some (os_leaveCriticalSection k))"

fun run ::
  "platform \<Rightarrow> ('a::len word kernel \<Rightarrow> 'a word kernel) \<Rightarrow> event list \<Rightarrow> 'a word kernel \<Rightarrow>
   (error + 'a word kernel) option" where
  "run pf taskman [] k = Some (Inr k)"
| "run pf taskman (ev # evs) k =
     (case step pf taskman ev k of
        None \<Rightarrow> None
      | Some (Inl e) \<Rightarrow> Some (Inl e)
      | Some (Inr k') \<Rightarrow> run pf taskman evs k')"

section \<open>Notions used in the statements\<close>

text \<open>
  Slot \<open>i\<close> of a process table is ready.
\<close>

definition ready :: "Process list \<Rightarrow> nat \<Rightarrow> bool" where
  "ready ps i = (state (ps ! i) = OS_PS_READY)"

text \<open>
  A strategy result that names a slot of the table whose state is OS_PS_READY.
\<close>

definition ready_result :: "Process list \<Rightarrow> ProcessID \<Rightarrow> bool" where
  "ready_result ps p \<longleftrightarrow>
     unat p < MAX_NUMBER_OF_PROCESSES \<and> state (ps ! unat p) = OS_PS_READY"

text \<open>
  The idle slot 0 is ready and no other slot is.
\<close>

definition only_idle_ready :: "Process list \<Rightarrow> bool" where
  "only_idle_ready ps \<longleftrightarrow>
     filter (\<lambda>i. state (ps ! i) = OS_PS_READY) [0..<MAX_NUMBER_OF_PROCESSES] = [0]"

text \<open>
  The ages after the first loop of os_Scheduler_InactiveAging, said directly: the
  priority is added to the age of every ready slot, the other ages stay.
\<close>

definition aged :: "Process list \<Rightarrow> 'a::len word list \<Rightarrow> 'a word list" where
  "aged ps a =
     map (\<lambda>p. if state (ps ! p) = OS_PS_READY then a ! p + ucast (priority (ps ! p)) else a ! p)
         [0..<MAX_NUMBER_OF_PROCESSES]"

text \<open>
  The key (age descending, priority descending) of the inactive-aging strategy:
  slot \<open>i\<close> comes strictly before slot \<open>j\<close>, and the two slots have the same key.
\<close>

definition older :: "Process list \<Rightarrow> 'a::len word list \<Rightarrow> nat \<Rightarrow> nat \<Rightarrow> bool" where
  "older ps a i j \<longleftrightarrow>
     a ! j < a ! i \<or> (a ! i = a ! j \<and> priority (ps ! j) < priority (ps ! i))"

definition same_key :: "Process list \<Rightarrow> 'a::len word list \<Rightarrow> nat \<Rightarrow> nat \<Rightarrow> bool" where
  "same_key ps a i j \<longleftrightarrow> a ! i = a ! j \<and> priority (ps ! i) = priority (ps ! j)"

text \<open>
  The second loop of os_Scheduler_InactiveAging after its first \<open>n\<close> rounds, with the three tests merged.
\<close>

definition oldest_upto :: "Process list \<Rightarrow> 'a::len word list \<Rightarrow> nat \<Rightarrow> nat" where
  "oldest_upto ps a n =
     fold (\<lambda>i w. if ready ps i \<and> older ps a i w then i else w) [0..<n] 0"

section \<open>Example states\<close>

text \<open>A concrete platform: eight process stacks of 64 bytes below address 0x0FFF.\<close>

definition pf0 :: platform where
  "pf0 = \<lparr>INVALID_PROCESS = 255,
          PROCESS_STACK_BOTTOM = (\<lambda>pid. 0x0FFF - 64 * ucast pid),
          STACK_SIZE_PROC = 64,
          BOTTOM_OF_ISR_STACK = 0x10FF,
          DEFAULT_PRIORITY = 2,
          idle = 0x0100\<rparr>"

definition unused_slot :: Process where
  "unused_slot = \<lparr>program = 0, state = OS_PS_UNUSED, sp = 0, priority = 0, checksum = 0\<rparr>"

definition ready_slot :: "Program \<Rightarrow> Priority \<Rightarrow> address \<Rightarrow> Process" where
  "ready_slot prog prio s =
     \<lparr>program = prog, state = OS_PS_READY, sp = s, priority = prio, checksum = 0\<rparr>"

text \<open>The state after reset: the initial values of the globals, an empty process table.\<close>

definition k0 :: "16 word kernel" where
  "k0 = \<lparr>os_processes = replicate 8 unused_slot,
         currentProcess = 0, currentProc = 0, actual = OS_SS_EVEN,
         criticalSectionCount = 0,
         schedulingInfo = \<lparr>timeSlice = 0, age = replicate 8 0\<rparr>,
         SREG = 0x80, TIMSK2 = 0x02, SP = 0x10FF,
         regs = (\<lambda>r. 0), mem = (\<lambda>a. 0)\<rparr>"

text \<open>A full table: eight ready processes.\<close>

definition k_full :: "16 word kernel" where
  "k_full = k0\<lparr>os_processes := replicate 8 (ready_slot 0x0200 2 0x0F00)\<rparr>"

text \<open>
  Slot 0 is running and is interrupted with SP = 0x0FD0 inside its stack; slot 1 is ready,
  with the stack pointer 0x0F9C that os_exec left in it.
\<close>

definition k_tick :: "16 word kernel" where
  "k_tick = k0\<lparr>os_processes :=
                 [\<lparr>program = 0x0100, state = OS_PS_RUNNING, sp = 0x0FDC, priority = 2, checksum = 0\<rparr>,
                  ready_slot 0x0200 2 0x0F9C,
                  unused_slot, unused_slot, unused_slot, unused_slot, unused_slot, unused_slot],
               SP := 0x0FD0\<rparr>"

text \<open>
  Process tables and scheduling information for the examples below.
\<close>

definition ps_w :: "Process list" where
  "ps_w = [ready_slot 0x0100 2 0x0FDC, ready_slot 0x0200 2 0x0F9C, unused_slot,
           ready_slot 0x0300 3 0x0F1C, unused_slot, unused_slot, unused_slot, unused_slot]"

definition si_w :: "16 word SchedulingInformation" where
  "si_w = \<lparr>timeSlice = 0, age = replicate 8 0\<rparr>"

definition ps_3 :: "Process list" where
  "ps_3 = [unused_slot, unused_slot, unused_slot, ready_slot 0x0300 3 0x0F1C,
           unused_slot, unused_slot, unused_slot, unused_slot]"

definition ps_5 :: "Process list" where
  "ps_5 = [unused_slot, unused_slot, unused_slot, unused_slot, unused_slot,
           ready_slot 0x0500 2 0x0E9C, unused_slot, unused_slot]"

definition ps_a :: "Process list" where
  "ps_a = [\<lparr>program = 0x0100, state = OS_PS_RUNNING, sp = 0x0FDC, priority = 2, checksum = 0\<rparr>,
           ready_slot 0x0200 2 0x0F9C,
           unused_slot, unused_slot, unused_slot, unused_slot, unused_slot, unused_slot]"

definition si_a :: "16 word SchedulingInformation" where
  "si_a = \<lparr>timeSlice = 0, age = [10, 0, 0, 0, 0, 0, 0, 0]\<rparr>"

definition ps_rr :: "Process list" where
  "ps_rr = [ready_slot 0x0100 1 0x0FDC, ready_slot 0x0200 5 0x0F9C, ready_slot 0x0300 3 0x0F5C,
            unused_slot, unused_slot, unused_slot, unused_slot, unused_slot]"

text \<open>
  One run through every operation of the module.
\<close>

definition evs_w :: "event list" where
  "evs_w = [Tick 0 0, Exec 0x0400 3, SetSchedulingStrategy 2 OS_SS_ROUND_ROBIN,
            EnterCriticalSection, LeaveCriticalSection, StartScheduler,
            InitScheduler [0x0200]]"

section \<open>Properties of the critical-section gate\<close>

lemma sreg_restored: "(x AND 0x7F) OR push_bit 7 (drop_bit 7 x) = (x::8 word)"
proof -
  have "x AND 0x7F = take_bit 7 x"
    using take_bit_eq_mask [of 7 x] by (simp add: mask_eq_exp_minus_1)
  then show ?thesis
    by (simp add: or.commute)
      (metis bits_ident disjunctive_add bit_take_bit_iff bit_push_bit_iff not_le or.commute)
qed

lemma enter_ok:
  "criticalSectionCount k \<noteq> 255 \<Longrightarrow>
   os_enterCriticalSection k =
     Inr (k\<lparr>criticalSectionCount := criticalSectionCount k + 1,
            TIMSK2 := TIMSK2 k AND NOT (push_bit OCIE2A 1)\<rparr>)"
  by (simp add: os_enterCriticalSection_def Let_def sreg_restored)

lemma enter_overflow:
  "criticalSectionCount k = 255 \<Longrightarrow> os_enterCriticalSection k = Inl CriticalSectionOverflow"
  by (simp add: os_enterCriticalSection_def Let_def)

lemma leave_ok:
  "criticalSectionCount k \<noteq> 0 \<Longrightarrow>
   os_leaveCriticalSection k =
     Inr (k\<lparr>criticalSectionCount := criticalSectionCount k - 1,
            TIMSK2 := (if criticalSectionCount k = 1 then TIMSK2 k OR push_bit OCIE2A 1
                       else TIMSK2 k)\<rparr>)"
  by (simp add: os_leaveCriticalSection_def Let_def sreg_restored)

lemma or_after_clear: "(x AND NOT (2 ^ n)) OR 2 ^ n = x OR (2 ^ n :: 8 word)"
  by (simp add: bit_eq_iff bit_simps) blast

text \<open>
  C6 (as amended). Starting from nesting depth 0, the pair
  \<^verbatim>\<open>os_enterCriticalSection(); os_leaveCriticalSection();\<close> returns normally and leaves
  the nesting counter, SREG and every other global as they were, except that bit OCIE2A of
  TIMSK2 is set afterwards, whatever it was before: the outermost leave always unmasks
  the scheduler's timer interrupt. So the mask bit is restored to its value before the
  pair only when this value was 1.
\<close>

theorem enter_leave_pair:
  "criticalSectionCount k = 0 \<Longrightarrow>
   enter_then_leave k = Inr (k\<lparr>TIMSK2 := TIMSK2 k OR push_bit OCIE2A 1\<rparr>)"
  by (cases k) (simp add: enter_then_leave_def enter_ok leave_ok or_after_clear)

text \<open>
  The pair at the reset state, where bit OCIE2A is set: nothing changes.
\<close>

theorem enter_leave_pair_witness:
  "criticalSectionCount k0 = 0 \<and> enter_then_leave k0 = Inr k0"
  using enter_leave_pair [of k0] by (simp add: k0_def OCIE2A_def)

text \<open>
  C6 as stated fails when the timer-compare interrupt is masked before the pair: from
  nesting depth 0 and TIMSK2 = 0 the pair ends with TIMSK2 = 2, bit OCIE2A set.
\<close>

theorem enter_leave_masked_counterexample:
  "criticalSectionCount (k0\<lparr>TIMSK2 := 0\<rparr>) = 0 \<and>
   enter_then_leave (k0\<lparr>TIMSK2 := 0\<rparr>) = Inr (k0\<lparr>TIMSK2 := 2\<rparr>)"
  by (simp add: k0_def enter_then_leave_def enter_ok leave_ok OCIE2A_def)

section \<open>Properties of the strategy setter\<close>

text \<open>
  C9. os_setSchedulingStrategy never stores its argument: for every strategy value, the
  strategy returned by os_getSchedulingStrategy is the same before and after the call.
  The call is os_resetSchedulingInformation and nothing else, and it changes the
  scheduling information only.
\<close>

theorem set_strategy_keeps_actual:
  "os_getSchedulingStrategy (os_setSchedulingStrategy v s k) = os_getSchedulingStrategy k \<and>
   os_setSchedulingStrategy v s k = os_resetSchedulingInformation v s k \<and>
   os_setSchedulingStrategy v s k = k\<lparr>schedulingInfo := schedulingInfo (os_setSchedulingStrategy v s k)\<rparr>"
  by (simp add: os_getSchedulingStrategy_def os_setSchedulingStrategy_def
      os_resetSchedulingInformation_def Let_def)

section \<open>Properties of os\_exec\<close>

lemma find_unused_full:
  "\<forall>i<MAX_NUMBER_OF_PROCESSES. state (ps ! i) \<noteq> OS_PS_UNUSED \<Longrightarrow>
   pid \<le> MAX_NUMBER_OF_PROCESSES \<Longrightarrow>
   find_unused ps pid = MAX_NUMBER_OF_PROCESSES"
  by (induction ps pid rule: find_unused.induct) (simp add: find_unused.simps)

text \<open>
  C7 (as amended). When no slot of the process table is OS_PS_UNUSED and the nesting
  counter of the critical sections is below 255, os_exec returns INVALID_PROCESS and the
  process table after the call is the table before it, in every field of every slot.
  When the counter is already 255, the call ends in the fatal error of
  os_enterCriticalSection and returns nothing.
\<close>

theorem exec_full_table:
  assumes "\<forall>i<MAX_NUMBER_OF_PROCESSES. state (os_processes k ! i) \<noteq> OS_PS_UNUSED"
  shows "(criticalSectionCount k \<noteq> 255 \<and>
          (\<exists>k'. os_exec pf prog prio k = Inr (INVALID_PROCESS pf, k') \<and>
                os_processes k' = os_processes k)) \<or>
         (criticalSectionCount k = 255 \<and> os_exec pf prog prio k = Inl CriticalSectionOverflow)"
proof (cases "criticalSectionCount k = 255")
  case True
  then show ?thesis by (simp add: os_exec_def enter_overflow)
next
  case False
  with assms show ?thesis
    by (simp add: os_exec_def enter_ok find_unused_full)
qed

text \<open>
  os_exec on the full table of eight ready processes.
\<close>

theorem exec_full_table_witness:
  "\<exists>k'. os_exec pf0 0x0200 3 k_full = Inr (INVALID_PROCESS pf0, k') \<and>
        os_processes k' = os_processes k_full"
  using exec_full_table [of k_full pf0 "0x0200" 3]
  by (simp add: k_full_def k0_def ready_slot_def MAX_NUMBER_OF_PROCESSES_def)

lemma find_unused_k_full:
  "find_unused (replicate 8 (ready_slot a b c)) 0 = MAX_NUMBER_OF_PROCESSES"
  by (rule find_unused_full) (simp_all add: ready_slot_def MAX_NUMBER_OF_PROCESSES_def)

lemma exec_full_returns:
  assumes "\<forall>i<MAX_NUMBER_OF_PROCESSES. state (os_processes k ! i) \<noteq> OS_PS_UNUSED"
    and "criticalSectionCount k \<noteq> 255"
  shows "os_exec pf prog prio k =
           Inr (INVALID_PROCESS pf,
                k\<lparr>criticalSectionCount := criticalSectionCount k + 1,
                  TIMSK2 := TIMSK2 k AND NOT (push_bit OCIE2A 1)\<rparr>)"
  using assms by (simp add: os_exec_def enter_ok find_unused_full)

lemma failed_execs:
  assumes "\<forall>i<MAX_NUMBER_OF_PROCESSES. state (os_processes k ! i) \<noteq> OS_PS_UNUSED"
    and "unat (criticalSectionCount k) + n \<le> 255"
  shows "\<exists>k'. run pf taskman (replicate n (Exec prog prio)) k = Some (Inr k') \<and>
              os_processes k' = os_processes k \<and>
              criticalSectionCount k' = criticalSectionCount k + of_nat n"
  using assms
proof (induction n arbitrary: k)
  case 0
  then show ?case by simp
next
  case (Suc n)
  let ?k1 = "k\<lparr>criticalSectionCount := criticalSectionCount k + 1,
                 TIMSK2 := TIMSK2 k AND NOT (push_bit OCIE2A 1)\<rparr>"
  from Suc.prems(2) have ne: "criticalSectionCount k \<noteq> 255"
    by (auto simp: word_unat_eq_iff)
  have u: "unat (criticalSectionCount k + 1) = unat (criticalSectionCount k) + 1"
    using Suc.prems(2) by (simp add: unat_word_ariths)
  have s: "step pf taskman (Exec prog prio) k = Some (Inr ?k1)"
    by (simp add: step_def exec_full_returns [OF Suc.prems(1) ne])
  have "\<forall>i<MAX_NUMBER_OF_PROCESSES. state (os_processes ?k1 ! i) \<noteq> OS_PS_UNUSED"
    using Suc.prems(1) by simp
  moreover have "unat (criticalSectionCount ?k1) + n \<le> 255"
    using Suc.prems(2) u by simp
  ultimately obtain k' where "run pf taskman (replicate n (Exec prog prio)) ?k1 = Some (Inr k')"
    "os_processes k' = os_processes ?k1"
    "criticalSectionCount k' = criticalSectionCount ?k1 + of_nat n"
    using Suc.IH [of ?k1] by blast
  with s show ?case by (simp add: add.assoc add.commute)
qed

text \<open>
  C7 as stated fails at nesting depth 255. Every os_exec on a full table returns without
  leaving its critical section, so 255 such calls from depth 0 leave the table full and
  the counter at 255; the next call on the full table does not return INVALID_PROCESS but
  ends in the fatal error for the overflow of the counter.
\<close>

theorem exec_full_table_overflow_counterexample:
  "map_option (map_sum id criticalSectionCount)
     (run pf0 id (replicate 255 (Exec 0x0200 3)) k_full) = Some (Inr 255) \<and>
   find_unused (os_processes (k_full\<lparr>criticalSectionCount := 255\<rparr>)) 0 = MAX_NUMBER_OF_PROCESSES \<and>
   os_exec pf0 0x0200 3 (k_full\<lparr>criticalSectionCount := 255\<rparr>) = Inl CriticalSectionOverflow"
proof -
  have full: "\<forall>i<MAX_NUMBER_OF_PROCESSES. state (os_processes k_full ! i) \<noteq> OS_PS_UNUSED"
    by (simp add: k_full_def ready_slot_def MAX_NUMBER_OF_PROCESSES_def)
  have "unat (criticalSectionCount k_full) + 255 \<le> 255"
    by (simp add: k_full_def k0_def)
  from failed_execs [OF full this, of pf0 id "0x0200" 3]
  have "map_option (map_sum id criticalSectionCount)
     (run pf0 id (replicate 255 (Exec 0x0200 3)) k_full) = Some (Inr 255)"
    by (auto simp: k_full_def k0_def)
  moreover have "find_unused (os_processes (k_full\<lparr>criticalSectionCount := 255\<rparr>)) 0 =
      MAX_NUMBER_OF_PROCESSES"
    by (simp add: k_full_def find_unused_k_full)
  moreover have "os_exec pf0 0x0200 3 (k_full\<lparr>criticalSectionCount := 255\<rparr>) =
      Inl CriticalSectionOverflow"
    by (simp add: os_exec_def enter_overflow)
  ultimately show ?thesis by simp
qed

text \<open>
  C5 fails on the code: both failure returns of os_exec come before the call of
  os_leaveCriticalSection. With a NULL program, and with a full table, a call from
  nesting depth 0 returns INVALID_PROCESS with nesting depth 1 and the scheduler's timer
  interrupt still masked.
\<close>

theorem exec_failure_stays_in_critical_section:
  "os_exec pf0 0 5 k0 =
     Inr (INVALID_PROCESS pf0, k0\<lparr>criticalSectionCount := 1, TIMSK2 := 0\<rparr>) \<and>
   os_exec pf0 0x0200 3 k_full =
     Inr (INVALID_PROCESS pf0, k_full\<lparr>criticalSectionCount := 1, TIMSK2 := 0\<rparr>)"
  by (simp add: os_exec_def enter_ok k_full_def k0_def OCIE2A_def find_unused_k_full)

section \<open>Properties of the strategies\<close>

subsection \<open>Counting and collecting the ready slots\<close>

lemma fold_count:
  "fold (\<lambda>i (n::8 word). if R i then n + 1 else n) xs n0 = n0 + of_nat (length (filter R xs))"
  by (induction xs arbitrary: n0) simp_all

lemma count_ready_eq:
  "count_ready ps = of_nat (length (filter (ready ps) [0..<MAX_NUMBER_OF_PROCESSES]))"
  unfolding count_ready_def ready_def by (simp add: fold_count)

lemma fold_array:
  "fold (\<lambda>i array. if R i then array @ [g i] else array) xs acc = acc @ map g (filter R xs)"
  by (induction xs arbitrary: acc) simp_all

lemma ready_array_eq:
  "ready_array ps = map of_nat (filter (ready ps) [0..<MAX_NUMBER_OF_PROCESSES])"
  unfolding ready_array_def ready_def by (simp add: fold_array)

lemma nready_le: "length (filter (ready ps) [0..<MAX_NUMBER_OF_PROCESSES]) \<le> 8"
  using length_filter_le [of "ready ps" "[0..<MAX_NUMBER_OF_PROCESSES]"]
  by (simp add: MAX_NUMBER_OF_PROCESSES_def)

lemma count_ready_one:
  "count_ready ps = 1 \<longleftrightarrow> length (filter (ready ps) [0..<MAX_NUMBER_OF_PROCESSES]) = 1"
proof -
  let ?n = "length (filter (ready ps) [0..<MAX_NUMBER_OF_PROCESSES])"
  have "unat (of_nat ?n :: 8 word) = ?n"
    using nready_le [of ps] by (simp add: unat_of_nat)
  then show ?thesis
    by (simp add: count_ready_eq word_unat_eq_iff)
qed

lemma unat_of_nat_slot: "i < 8 \<Longrightarrow> unat (of_nat i :: 8 word) = i"
  by (simp add: unat_of_nat)

lemma nonidle_ready_exists:
  assumes "ready ps 0" "count_ready ps \<noteq> 1"
  shows "\<exists>j. 1 \<le> j \<and> j < 8 \<and> ready ps j"
proof -
  have "[0..<MAX_NUMBER_OF_PROCESSES] = 0 # [1..<MAX_NUMBER_OF_PROCESSES]"
    by (simp add: MAX_NUMBER_OF_PROCESSES_def upt_conv_Cons)
  with assms have "filter (ready ps) [1..<MAX_NUMBER_OF_PROCESSES] \<noteq> []"
    by (auto simp: count_ready_one)
  then obtain j where "j \<in> set (filter (ready ps) [1..<MAX_NUMBER_OF_PROCESSES])"
    unfolding filter_empty_conv by auto
  then show ?thesis by (auto simp: MAX_NUMBER_OF_PROCESSES_def)
qed

lemma two_ready_count:
  assumes "i < 8" "j < 8" "i \<noteq> j" "ready ps i" "ready ps j"
  shows "count_ready ps \<noteq> 1"
proof -
  let ?xs = "filter (ready ps) [0..<MAX_NUMBER_OF_PROCESSES]"
  have "{i, j} \<subseteq> set ?xs"
    using assms by (auto simp: MAX_NUMBER_OF_PROCESSES_def)
  then have "card {i, j} \<le> card (set ?xs)"
    by (intro card_mono) auto
  also have "card (set ?xs) = length ?xs"
    by (intro distinct_card) simp
  finally have "2 \<le> length ?xs" using assms(3) by simp
  then show ?thesis by (simp add: count_ready_one)
qed

lemma only_idle_count: "only_idle_ready ps \<Longrightarrow> count_ready ps = 1"
  unfolding only_idle_ready_def count_ready_one ready_def [abs_def] by simp

lemma only_idle_zero:
  assumes "ready_result ps p" "only_idle_ready ps"
  shows "p = 0"
proof -
  have "unat p \<in> set (filter (\<lambda>i. state (ps ! i) = OS_PS_READY) [0..<MAX_NUMBER_OF_PROCESSES])"
    using assms(1) by (simp add: ready_result_def)
  with assms(2) have "unat p = 0" by (simp add: only_idle_ready_def)
  then show ?thesis by (simp add: unat_eq_0)
qed

subsection \<open>The cyclic search\<close>

text \<open>
  Seen from slot \<open>n\<close>, slot \<open>j\<close> of the cycle 1, ..., 7 is \<open>(j + 6 - n) mod 7\<close> steps
  after the next one.
\<close>

lemma lt8:
  "n < (8::nat) \<Longrightarrow> n = 7 \<or> n = 6 \<or> n = 5 \<or> n = 4 \<or> n = 3 \<or> n = 2 \<or> n = 1 \<or> n = 0"
  by (simp add: numeral_eq_Suc less_Suc_eq) blast

lemma cyc0:
  assumes "n < 8" "1 \<le> j" "j < 8" "(j + 6 - n) mod 7 = 0"
  shows "(if n = 7 then 1 else n + 1) = (j::nat)"
  using lt8 [OF assms(1)] lt8 [OF assms(3)] assms(2,4) 
  by (elim disjE) simp_all

lemma cycS:
  assumes "n < 8" "1 \<le> j" "j < 8" "(j + 6 - n) mod 7 \<noteq> 0"
  shows "(j + 6 - (if n = 7 then 1 else n + 1)) mod 7 = (j + 6 - n) mod 7 - (1::nat)"
  using lt8 [OF assms(1)] lt8 [OF assms(3)] assms(2,4)
  by (elim disjE) simp_all

lemma next_unat:
  "unat c < 8 \<Longrightarrow> unat (if c = 7 then 1 else c + 1 :: 8 word) = (if unat c = 7 then 1 else unat c + 1)"
  by (auto simp: unat_word_ariths word_unat_eq_iff)

lemma next_ready_finds:
  assumes len: "length ps = 8" and j: "1 \<le> j" "j < 8" "ready ps j"
  shows "unat c < 8 \<Longrightarrow> (j + 6 - unat c) mod 7 = d \<Longrightarrow>
         \<exists>p. next_ready ps c = Some (Inr p) \<and> 1 \<le> unat p \<and> unat p < 8 \<and> ready ps (unat p)"
proof (induction d arbitrary: c)
  case 0
  let ?c' = "if c = 7 then 1 else c + 1 :: 8 word"
  have u: "unat ?c' = (if unat c = 7 then 1 else unat c + 1)"
    using "0.prems"(1) by (rule next_unat)
  have "unat ?c' = j"
    unfolding u using cyc0 [OF "0.prems"(1) j(1,2) "0.prems"(2)] .
  with j len show ?case
    by (subst next_ready.simps) (auto simp: Let_def ready_def)
next
  case (Suc d)
  let ?c' = "if c = 7 then 1 else c + 1 :: 8 word"
  have u: "unat ?c' = (if unat c = 7 then 1 else unat c + 1)"
    using Suc.prems(1) by (rule next_unat)
  have lt: "unat ?c' < 8" and ge: "1 \<le> unat ?c'"
    using u Suc.prems(1) by (auto split: if_splits)
  have d: "(j + 6 - unat ?c') mod 7 = d"
    unfolding u using cycS [OF Suc.prems(1) j(1,2)] Suc.prems(2) by simp
  show ?case
  proof (cases "ready ps (unat ?c')")
    case True
    with lt ge len show ?thesis
      by (subst next_ready.simps) (auto simp: Let_def ready_def)
  next
    case False
    have "next_ready ps c = next_ready ps ?c'"
      using False lt len by (subst next_ready.simps) (simp add: Let_def ready_def)
    with Suc.IH [OF lt d] show ?thesis by simp
  qed
qed

lemma next_ready_diverges_aux:
  assumes "next_ready ps c = Some y"
  shows "\<not> (length ps = 8 \<and> unat c < 8 \<and> (\<forall>j. 1 \<le> j \<and> j < 8 \<longrightarrow> \<not> ready ps j))"
proof (rule next_ready.raw_induct
    [where P = "\<lambda>ps c y. \<not> (length ps = 8 \<and> unat c < 8 \<and> (\<forall>j. 1 \<le> j \<and> j < 8 \<longrightarrow> \<not> ready ps j))",
      OF _ assms], goal_cases)
  case (1 next_ready' ps c y)
  let ?c' = "if c = 7 then 1 else c + 1 :: 8 word"
  show ?case
  proof
    assume a: "length ps = 8 \<and> unat c < 8 \<and> (\<forall>j. 1 \<le> j \<and> j < 8 \<longrightarrow> \<not> ready ps j)"
    then have u: "unat ?c' = (if unat c = 7 then 1 else unat c + 1)"
      by (intro next_unat) simp
    have lt: "unat ?c' < 8" and ge: "1 \<le> unat ?c'"
      using u a by (auto split: if_splits)
    with a have nr: "\<not> ready ps (unat ?c')" by blast
    from 1(2) a lt nr have "next_ready' ps ?c' = Some y"
      by (simp add: Let_def ready_def split: if_splits)
    from 1(1) [OF this] a lt show False by blast
  qed
qed

lemma next_ready_diverges:
  "length ps = 8 \<Longrightarrow> unat c < 8 \<Longrightarrow> (\<forall>j. 1 \<le> j \<and> j < 8 \<longrightarrow> \<not> ready ps j) \<Longrightarrow>
   next_ready ps c = None"
  using next_ready_diverges_aux [of ps c] by (cases "next_ready ps c") auto

subsection \<open>Even, RunToCompletion, Random and RoundRobin with the idle slot ready\<close>

lemma even_ready:
  assumes "length ps = 8" "unat current < 8" "ready ps 0"
  shows "\<exists>p. os_Scheduler_Even ps current = Some (Inr p) \<and> unat p < 8 \<and> ready ps (unat p)"
proof (cases "count_ready ps = 1")
  case True
  with assms show ?thesis by (simp add: os_Scheduler_Even_def)
next
  case False
  with assms obtain j where j: "1 \<le> j" "j < 8" "ready ps j"
    using nonidle_ready_exists by blast
  from next_ready_finds [OF assms(1) j assms(2) refl] False show ?thesis
    by (auto simp: os_Scheduler_Even_def)
qed

lemma rtc_ready:
  assumes "length ps = 8" "unat current < 8" "ready ps 0"
  shows "\<exists>p. os_Scheduler_RunToCompletion ps current = Some (Inr p) \<and> unat p < 8 \<and> ready ps (unat p)"
proof (cases "ready ps (unat current)")
  case True
  with assms show ?thesis by (simp add: os_Scheduler_RunToCompletion_def ready_def)
next
  case nr: False
  show ?thesis
  proof (cases "count_ready ps = 1")
    case True
    with assms nr show ?thesis by (simp add: os_Scheduler_RunToCompletion_def ready_def)
  next
    case False
    with assms obtain j where j: "1 \<le> j" "j < 8" "ready ps j"
      using nonidle_ready_exists by blast
    from next_ready_finds [OF assms(1) j assms(2) refl] False nr assms show ?thesis
      by (auto simp: os_Scheduler_RunToCompletion_def ready_def)
  qed
qed

lemma random_ready:
  assumes "ready ps 0"
  shows "\<exists>p. os_Scheduler_Random r ps current = Inr p \<and> unat p < 8 \<and> ready ps (unat p)"
proof (cases "count_ready ps = 1")
  case True
  with assms show ?thesis by (simp add: os_Scheduler_Random_def)
next
  case False
  let ?xs = "filter (ready ps) [0..<MAX_NUMBER_OF_PROCESSES]"
  let ?n = "length ?xs"
  have "0 \<in> set ?xs" using assms by (simp add: MAX_NUMBER_OF_PROCESSES_def)
  then have "?n \<noteq> 0" by (cases ?xs) auto
  moreover from False have "?n \<noteq> 1" by (simp add: count_ready_one)
  ultimately have n: "2 \<le> ?n" by linarith
  let ?idx = "r mod (?n - 1) + 1"
  have idx: "?idx < ?n"
    using n mod_less_divisor [of "?n - 1" r] by linarith
  then have "?xs ! ?idx \<in> set ?xs" by (rule nth_mem)
  then have el: "?xs ! ?idx < 8" "ready ps (?xs ! ?idx)"
    by (auto simp: MAX_NUMBER_OF_PROCESSES_def)
  have ne: "?xs \<noteq> []" using n by auto
  have "os_Scheduler_Random r ps current = Inr (of_nat (?xs ! ?idx))"
    using False ne idx by (simp add: os_Scheduler_Random_def ready_array_eq Let_def)
  with el show ?thesis by (simp add: unat_of_nat_slot)
qed

lemma round_robin_ready:
  assumes "length ps = 8" "unat current < 8" "ready ps 0"
    and "(state (ps ! unat current) = OS_PS_READY \<and> 0 < timeSlice si) \<or> only_idle_ready ps"
  shows "\<exists>p si'. os_Scheduler_RoundRobin ps current si = Inr (p, si') \<and> ready_result ps p"
proof (cases "state (ps ! unat current) = OS_PS_READY \<and> 0 < timeSlice si")
  case True
  with assms(1,2) show ?thesis
    by (simp add: os_Scheduler_RoundRobin_def ready_result_def MAX_NUMBER_OF_PROCESSES_def)
next
  case False
  with assms(4) have "count_ready ps = 1" by (simp add: only_idle_count)
  with False assms(1,2,3) show ?thesis
    by (auto simp: os_Scheduler_RoundRobin_def ready_result_def MAX_NUMBER_OF_PROCESSES_def
        ready_def)
qed

subsection \<open>Inactive aging\<close>

lemma age_fold_length:
  "length (fold (\<lambda>i a. if R i then a[i := a ! i + g i] else a) xs a) = length a"
  by (induction xs arbitrary: a) simp_all

lemma age_fold_nth:
  "n \<le> length a \<Longrightarrow> i < length a \<Longrightarrow>
   fold (\<lambda>i a. if R i then a[i := a ! i + g i] else a) [0..<n] a ! i =
     (if i < n \<and> R i then a ! i + g i else a ! i)"
proof (induction n)
  case 0
  then show ?case by simp
next
  case (Suc n)
  then show ?case
    by (auto simp: age_fold_length nth_list_update)
qed

lemma age_ready_eq:
  assumes "length a = MAX_NUMBER_OF_PROCESSES"
  shows "age_ready ps a = aged ps a"
proof (rule nth_equalityI)
  show "length (age_ready ps a) = length (aged ps a)"
    using assms by (simp add: age_ready_def aged_def age_fold_length)
next
  fix i assume "i < length (age_ready ps a)"
  then have i: "i < MAX_NUMBER_OF_PROCESSES"
    using assms by (simp add: age_ready_def age_fold_length)
  with assms show "age_ready ps a ! i = aged ps a ! i"
    unfolding age_ready_def aged_def by (simp add: age_fold_nth)
qed

lemma oldest_step:
  "(if state (ps ! i) = OS_PS_READY \<and> a ! w \<le> a ! i
    then (if a ! i = a ! w \<and> priority (ps ! w) \<le> priority (ps ! i)
          then (if priority (ps ! w) < priority (ps ! i) then i else w)
          else (if a ! w < a ! i then i else w))
    else w) = (if ready ps i \<and> older ps a i w then i else w)"
  by (auto simp: older_def ready_def)

lemma oldest_eq: "oldest ps a = oldest_upto ps a MAX_NUMBER_OF_PROCESSES"
  unfolding oldest_def oldest_upto_def by (simp only: oldest_step)

lemma oldest_upto_Suc:
  "oldest_upto ps a (Suc n) =
     (if ready ps n \<and> older ps a n (oldest_upto ps a n) then n else oldest_upto ps a n)"
  by (simp add: oldest_upto_def)

lemma older_trans: "older ps a i j \<Longrightarrow> \<not> older ps a k j \<Longrightarrow> older ps a i k"
  by (auto simp: older_def)

lemma older_irrefl: "\<not> older ps a i i"
  by (simp add: older_def)

lemma same_key_not_older: "same_key ps a i j \<Longrightarrow> \<not> older ps a i j \<and> \<not> older ps a j i"
  by (auto simp: older_def same_key_def)

lemma oldest_upto_inv:
  "(oldest_upto ps a n = 0 \<or> (oldest_upto ps a n < n \<and> ready ps (oldest_upto ps a n))) \<and>
   (\<forall>i. (i = 0 \<or> (i < n \<and> ready ps i)) \<longrightarrow>
        \<not> older ps a i (oldest_upto ps a n) \<and>
        (same_key ps a i (oldest_upto ps a n) \<longrightarrow> oldest_upto ps a n \<le> i))"
proof (induction n)
  case 0
  then show ?case by (simp add: oldest_upto_def older_irrefl)
next
  case (Suc n)
  let ?w = "oldest_upto ps a n"
  show ?case
  proof (cases "ready ps n \<and> older ps a n ?w")
    case True
    then have w': "oldest_upto ps a (Suc n) = n" by (simp add: oldest_upto_Suc)
    have "\<not> older ps a i n \<and> (same_key ps a i n \<longrightarrow> n \<le> i)"
      if "i = 0 \<or> (i < Suc n \<and> ready ps i)" for i
    proof (cases "i = n")
      case True
      then show ?thesis by (simp add: older_irrefl)
    next
      case False
      with that have "i = 0 \<or> (i < n \<and> ready ps i)" by auto
      with Suc.IH have "\<not> older ps a i ?w" by blast
      with True have "older ps a n i" by (blast intro: older_trans)
      then show ?thesis
        using same_key_not_older [of ps a i n] by (auto simp: older_def)
    qed
    with True w' show ?thesis by auto
  next
    case False
    then have w': "oldest_upto ps a (Suc n) = ?w" by (auto simp: oldest_upto_Suc)
    have "\<not> older ps a i ?w \<and> (same_key ps a i ?w \<longrightarrow> ?w \<le> i)"
      if "i = 0 \<or> (i < Suc n \<and> ready ps i)" for i
    proof (cases "i = n \<and> ready ps n")
      case True
      with False Suc.IH show ?thesis by auto
    next
      case False
      with that have "i = 0 \<or> (i < n \<and> ready ps i)" by (auto simp: less_Suc_eq)
      with Suc.IH show ?thesis by blast
    qed
    with Suc.IH w' show ?thesis by auto
  qed
qed

lemma oldest_props:
  "(oldest ps a = 0 \<or> (oldest ps a < 8 \<and> ready ps (oldest ps a))) \<and>
   (\<forall>i. (i = 0 \<or> (i < 8 \<and> ready ps i)) \<longrightarrow>
        \<not> older ps a i (oldest ps a) \<and> (same_key ps a i (oldest ps a) \<longrightarrow> oldest ps a \<le> i))"
  using oldest_upto_inv [of ps a MAX_NUMBER_OF_PROCESSES]
  by (simp add: oldest_eq MAX_NUMBER_OF_PROCESSES_def)

lemma aging_result:
  "length (age si) = MAX_NUMBER_OF_PROCESSES \<Longrightarrow>
   os_Scheduler_InactiveAging ps current si =
     (of_nat (oldest ps (aged ps (age si))),
      si\<lparr>age := (aged ps (age si))[oldest ps (aged ps (age si)) := 0]\<rparr>)"
  by (simp add: os_Scheduler_InactiveAging_def Let_def age_ready_eq)

lemma aging_ready:
  assumes "length (age si) = MAX_NUMBER_OF_PROCESSES" "ready ps 0"
  shows "unat (fst (os_Scheduler_InactiveAging ps current si)) < 8 \<and>
         ready ps (unat (fst (os_Scheduler_InactiveAging ps current si)))"
proof -
  let ?w = "oldest ps (aged ps (age si))"
  have "?w < 8 \<and> ready ps ?w"
    using oldest_props [of ps "aged ps (age si)"] assms(2) by auto
  then show ?thesis
    by (simp add: aging_result [OF assms(1)] unat_of_nat_slot)
qed

lemma aging_none_ready:
  assumes "length (age si) = MAX_NUMBER_OF_PROCESSES" "\<forall>i<8. \<not> ready ps i"
  shows "fst (os_Scheduler_InactiveAging ps current si) = 0"
proof -
  have "oldest ps (aged ps (age si)) = 0"
    using oldest_props [of ps "aged ps (age si)"] assms(2) by auto
  then show ?thesis by (simp add: aging_result [OF assms(1)])
qed

lemma state_unused_slot: "state unused_slot = OS_PS_UNUSED"
  by (simp add: unused_slot_def)

lemma none_ready_unused: "j < 8 \<Longrightarrow> \<not> ready (replicate 8 unused_slot) j"
  by (simp add: ready_def state_unused_slot)

subsection \<open>What the strategies return\<close>

text \<open>
  C2 (as amended). For every process table of MAX_NUMBER_OF_PROCESSES slots, every
  current id below MAX_NUMBER_OF_PROCESSES and every scheduling information: when the idle
  slot 0 is ready, os_Scheduler_Even, os_Scheduler_Random (for every value of rand()),
  os_Scheduler_RunToCompletion and os_Scheduler_InactiveAging return a slot whose state is
  OS_PS_READY; os_Scheduler_RoundRobin does so when the current slot is ready with a
  positive time slice and when only the idle slot is ready; and a ready result is 0 when
  only the idle slot is ready. When no slot at all is ready, os_Scheduler_InactiveAging
  returns 0.
\<close>

theorem strategies_return_ready:
  assumes "length ps = MAX_NUMBER_OF_PROCESSES" and "unat current < MAX_NUMBER_OF_PROCESSES"
    and "length (age si) = MAX_NUMBER_OF_PROCESSES"
  shows "(state (ps ! 0) = OS_PS_READY \<longrightarrow>
            (\<exists>p. os_Scheduler_Even ps current = Some (Inr p) \<and> ready_result ps p) \<and>
            (\<exists>p. os_Scheduler_Random rand ps current = Inr p \<and> ready_result ps p) \<and>
            (\<exists>p. os_Scheduler_RunToCompletion ps current = Some (Inr p) \<and> ready_result ps p) \<and>
            (\<exists>p si'. os_Scheduler_InactiveAging ps current si = (p, si') \<and> ready_result ps p) \<and>
            ((state (ps ! unat current) = OS_PS_READY \<and> 0 < timeSlice si) \<or> only_idle_ready ps \<longrightarrow>
               (\<exists>p si'. os_Scheduler_RoundRobin ps current si = Inr (p, si') \<and> ready_result ps p)) \<and>
            (\<forall>p. ready_result ps p \<and> only_idle_ready ps \<longrightarrow> p = 0)) \<and>
         ((\<forall>i<MAX_NUMBER_OF_PROCESSES. state (ps ! i) \<noteq> OS_PS_READY) \<longrightarrow>
            fst (os_Scheduler_InactiveAging ps current si) = 0)"
proof (intro conjI impI allI)
  assume r0: "state (ps ! 0) = OS_PS_READY"
  then have r: "ready ps 0" by (simp add: ready_def)
  have l: "length ps = 8" "unat current < 8"
    using assms by (simp_all add: MAX_NUMBER_OF_PROCESSES_def)
  show "\<exists>p. os_Scheduler_Even ps current = Some (Inr p) \<and> ready_result ps p"
    using even_ready [OF l r]
    by (simp add: ready_result_def ready_def MAX_NUMBER_OF_PROCESSES_def)
  show "\<exists>p. os_Scheduler_Random rand ps current = Inr p \<and> ready_result ps p"
    using random_ready [OF r, of rand current]
    by (simp add: ready_result_def ready_def MAX_NUMBER_OF_PROCESSES_def)
  show "\<exists>p. os_Scheduler_RunToCompletion ps current = Some (Inr p) \<and> ready_result ps p"
    using rtc_ready [OF l r]
    by (simp add: ready_result_def ready_def MAX_NUMBER_OF_PROCESSES_def)
  show "\<exists>p si'. os_Scheduler_InactiveAging ps current si = (p, si') \<and> ready_result ps p"
    using aging_ready [OF assms(3) r, of current]
    by (cases "os_Scheduler_InactiveAging ps current si")
      (simp add: ready_result_def ready_def MAX_NUMBER_OF_PROCESSES_def)
  show "\<exists>p si'. os_Scheduler_RoundRobin ps current si = Inr (p, si') \<and> ready_result ps p"
    if "(state (ps ! unat current) = OS_PS_READY \<and> 0 < timeSlice si) \<or> only_idle_ready ps"
    using round_robin_ready [OF l r that] .
  show "p = 0" if "ready_result ps p \<and> only_idle_ready ps" for p
    using that only_idle_zero by blast
next
  assume "\<forall>i<MAX_NUMBER_OF_PROCESSES. state (ps ! i) \<noteq> OS_PS_READY"
  then have "\<forall>i<8. \<not> ready ps i"
    by (simp add: ready_def MAX_NUMBER_OF_PROCESSES_def)
  then show "fst (os_Scheduler_InactiveAging ps current si) = 0"
    by (rule aging_none_ready [OF assms(3)])
qed

text \<open>
  The five strategies on a table with slots 0, 1 and 3 ready and current slot 1, and
  inactive aging on the empty table.
\<close>

theorem strategies_return_ready_witness:
  "(\<exists>p. os_Scheduler_Even ps_w 1 = Some (Inr p) \<and> ready_result ps_w p) \<and>
   (\<exists>p. os_Scheduler_Random 5 ps_w 1 = Inr p \<and> ready_result ps_w p) \<and>
   (\<exists>p. os_Scheduler_RunToCompletion ps_w 1 = Some (Inr p) \<and> ready_result ps_w p) \<and>
   (\<exists>p si'. os_Scheduler_InactiveAging ps_w 1 si_w = (p, si') \<and> ready_result ps_w p) \<and>
   (\<exists>p si'. os_Scheduler_RoundRobin ps_w 1 (si_w\<lparr>timeSlice := 2\<rparr>) = Inr (p, si') \<and>
            ready_result ps_w p) \<and>
   fst (os_Scheduler_InactiveAging (replicate 8 unused_slot) 0 si_w) = 0"
proof -
  have a: "length ps_w = MAX_NUMBER_OF_PROCESSES" "unat (1 :: 8 word) < MAX_NUMBER_OF_PROCESSES"
    "length (age si_w) = MAX_NUMBER_OF_PROCESSES"
    "length (age (si_w\<lparr>timeSlice := 2\<rparr>)) = MAX_NUMBER_OF_PROCESSES"
    by (simp_all add: ps_w_def si_w_def MAX_NUMBER_OF_PROCESSES_def)
  have b: "length (replicate 8 unused_slot) = MAX_NUMBER_OF_PROCESSES"
    "unat (0 :: 8 word) < MAX_NUMBER_OF_PROCESSES"
    by (simp_all add: MAX_NUMBER_OF_PROCESSES_def)
  have r0: "state (ps_w ! 0) = OS_PS_READY" "state (ps_w ! unat (1 :: 8 word)) = OS_PS_READY"
    "0 < timeSlice (si_w\<lparr>timeSlice := 2\<rparr>)"
    by (simp_all add: ps_w_def ready_slot_def)
  have n: "\<forall>i<MAX_NUMBER_OF_PROCESSES. state (replicate 8 unused_slot ! i) \<noteq> OS_PS_READY"
    by (simp add: MAX_NUMBER_OF_PROCESSES_def unused_slot_def)
  show ?thesis
    using strategies_return_ready [OF a(1,2,3), of 5] r0
      strategies_return_ready [OF a(1,2,4), of 5]
      strategies_return_ready [OF b a(3), of 5] n
    by blast
qed

text \<open>
  C2 as stated fails. With no ready slot the loops of os_Scheduler_Even and
  os_Scheduler_RunToCompletion never end, and os_Scheduler_Random reads outside its empty
  array: none of them returns 0. With slot 5 the only ready slot, os_Scheduler_Even returns
  0, which is neither ready nor the only ready slot.
\<close>

theorem strategies_counterexample:
  "os_Scheduler_Even (replicate 8 unused_slot) 0 = None \<and>
   os_Scheduler_RunToCompletion (replicate 8 unused_slot) 0 = None \<and>
   os_Scheduler_Random 0 (replicate 8 unused_slot) 0 = Inl OutOfRange \<and>
   os_Scheduler_Even ps_5 2 = Some (Inr 0) \<and> state (ps_5 ! 0) = OS_PS_UNUSED \<and>
   state (ps_5 ! 5) = OS_PS_READY"
proof -
  have d: "next_ready (replicate 8 unused_slot) 0 = None"
    by (rule next_ready_diverges) (simp_all add: none_ready_unused)
  have c: "count_ready (replicate 8 unused_slot) = 0"
    by code_simp
  have "os_Scheduler_Even (replicate 8 unused_slot) 0 = None"
    by (simp add: os_Scheduler_Even_def c d)
  moreover have "os_Scheduler_RunToCompletion (replicate 8 unused_slot) 0 = None"
    by (simp add: os_Scheduler_RunToCompletion_def c d state_unused_slot)
  moreover have "os_Scheduler_Random 0 (replicate 8 unused_slot) 0 = Inl OutOfRange"
    by code_simp
  moreover have "os_Scheduler_Even ps_5 2 = Some (Inr 0) \<and> state (ps_5 ! 0) = OS_PS_UNUSED \<and>
      state (ps_5 ! 5) = OS_PS_READY"
    by code_simp
  ultimately show ?thesis by simp
qed

text \<open>
  C8 (as amended). For every process table of MAX_NUMBER_OF_PROCESSES slots and every
  current id below MAX_NUMBER_OF_PROCESSES: when a non-idle slot \<open>j\<close> is ready and it is
  not the only ready slot, os_Scheduler_Even returns, and its result is the id of a ready
  slot in [1, MAX_NUMBER_OF_PROCESSES); so does os_Scheduler_RunToCompletion when the
  current slot is not ready.
\<close>

theorem even_returns_non_idle:
  assumes "length ps = MAX_NUMBER_OF_PROCESSES" and "unat current < MAX_NUMBER_OF_PROCESSES"
    and "1 \<le> j" and "j < MAX_NUMBER_OF_PROCESSES" and "state (ps ! j) = OS_PS_READY"
    and "i < MAX_NUMBER_OF_PROCESSES" and "i \<noteq> j" and "state (ps ! i) = OS_PS_READY"
  shows "(\<exists>p. os_Scheduler_Even ps current = Some (Inr p) \<and>
              1 \<le> unat p \<and> unat p < MAX_NUMBER_OF_PROCESSES \<and> state (ps ! unat p) = OS_PS_READY) \<and>
         (state (ps ! unat current) \<noteq> OS_PS_READY \<longrightarrow>
            (\<exists>p. os_Scheduler_RunToCompletion ps current = Some (Inr p) \<and>
                 1 \<le> unat p \<and> unat p < MAX_NUMBER_OF_PROCESSES \<and> state (ps ! unat p) = OS_PS_READY))"
proof -
  have l: "length ps = 8" "unat current < 8" and j: "1 \<le> j" "j < 8" "ready ps j"
    using assms by (simp_all add: MAX_NUMBER_OF_PROCESSES_def ready_def)
  have c: "count_ready ps \<noteq> 1"
    using two_ready_count [of i j ps] assms by (simp add: MAX_NUMBER_OF_PROCESSES_def ready_def)
  from next_ready_finds [OF l(1) j l(2) refl] c l show ?thesis
    by (simp add: os_Scheduler_Even_def os_Scheduler_RunToCompletion_def ready_def
        MAX_NUMBER_OF_PROCESSES_def)
qed

text \<open>
  Both strategies on the table with slots 0, 1 and 3 ready, from the unused slot 2.
\<close>

theorem even_returns_non_idle_witness:
  "(\<exists>p. os_Scheduler_Even ps_w 2 = Some (Inr p) \<and>
        1 \<le> unat p \<and> unat p < MAX_NUMBER_OF_PROCESSES \<and> state (ps_w ! unat p) = OS_PS_READY) \<and>
   (\<exists>p. os_Scheduler_RunToCompletion ps_w 2 = Some (Inr p) \<and>
        1 \<le> unat p \<and> unat p < MAX_NUMBER_OF_PROCESSES \<and> state (ps_w ! unat p) = OS_PS_READY)"
proof -
  have "length ps_w = MAX_NUMBER_OF_PROCESSES" "unat (2 :: 8 word) < MAX_NUMBER_OF_PROCESSES"
    "(1::nat) \<le> 3" "3 < MAX_NUMBER_OF_PROCESSES" "state (ps_w ! 3) = OS_PS_READY"
    "0 < MAX_NUMBER_OF_PROCESSES" "(0::nat) \<noteq> 3" "state (ps_w ! 0) = OS_PS_READY"
    by (simp_all add: ps_w_def ready_slot_def MAX_NUMBER_OF_PROCESSES_def)
  from even_returns_non_idle [OF this] show ?thesis
    by (simp add: ps_w_def unused_slot_def)
qed

text \<open>
  C8 as stated fails when the ready non-idle slot is the only ready slot: both
  strategies count one ready slot and return 0.
\<close>

theorem even_single_ready_counterexample:
  "state (ps_3 ! 3) = OS_PS_READY \<and> state (ps_3 ! 0) = OS_PS_UNUSED \<and>
   os_Scheduler_Even ps_3 0 = Some (Inr 0) \<and>
   os_Scheduler_RunToCompletion ps_3 0 = Some (Inr 0)"
  by code_simp

text \<open>
  C4 (as amended). On every call of os_Scheduler_InactiveAging (table and age array of
  MAX_NUMBER_OF_PROCESSES entries): first the priority is added to the age of every ready
  slot; then the winner \<open>w\<close> is maximal under the key (age descending, priority
  descending, slot id ascending) among the ready slots together with slot 0, which is the
  default winner whether it is ready or not; the winner's age is reset to 0 before the
  return, and nothing else of the scheduling information changes. So when slot 0 is ready
  the winner is maximal among the ready slots.
\<close>

theorem inactive_aging_selects:
  assumes "length ps = MAX_NUMBER_OF_PROCESSES" and "length (age si) = MAX_NUMBER_OF_PROCESSES"
  shows "\<exists>w. os_Scheduler_InactiveAging ps current si =
               (of_nat w, si\<lparr>age := (aged ps (age si))[w := 0]\<rparr>) \<and>
             w < MAX_NUMBER_OF_PROCESSES \<and>
             (w = 0 \<or> state (ps ! w) = OS_PS_READY) \<and>
             (\<forall>i<MAX_NUMBER_OF_PROCESSES. i = 0 \<or> state (ps ! i) = OS_PS_READY \<longrightarrow>
                  \<not> older ps (aged ps (age si)) i w \<and>
                  (same_key ps (aged ps (age si)) i w \<longrightarrow> w \<le> i))"
proof -
  let ?w = "oldest ps (aged ps (age si))"
  have "?w < MAX_NUMBER_OF_PROCESSES"
    using oldest_props [of ps "aged ps (age si)"] by (auto simp: MAX_NUMBER_OF_PROCESSES_def)
  moreover have "?w = 0 \<or> state (ps ! ?w) = OS_PS_READY"
    using oldest_props [of ps "aged ps (age si)"] by (auto simp: ready_def)
  moreover have "\<forall>i<MAX_NUMBER_OF_PROCESSES. i = 0 \<or> state (ps ! i) = OS_PS_READY \<longrightarrow>
                  \<not> older ps (aged ps (age si)) i ?w \<and>
                  (same_key ps (aged ps (age si)) i ?w \<longrightarrow> ?w \<le> i)"
    using oldest_props [of ps "aged ps (age si)"]
    by (simp add: ready_def MAX_NUMBER_OF_PROCESSES_def)
  ultimately show ?thesis
    using aging_result [OF assms(2), of ps current] by blast
qed

text \<open>
  Ready slots 0, 1 and 3 with priorities 2, 2 and 3 and ages 0: slot 3 wins.
\<close>

theorem inactive_aging_selects_witness:
  "(\<exists>w. os_Scheduler_InactiveAging ps_w 1 si_w =
          (of_nat w, si_w\<lparr>age := (aged ps_w (age si_w))[w := 0]\<rparr>) \<and>
        w < MAX_NUMBER_OF_PROCESSES \<and> (w = 0 \<or> state (ps_w ! w) = OS_PS_READY)) \<and>
   os_Scheduler_InactiveAging ps_w 1 si_w = (3, si_w\<lparr>age := [2, 2, 0, 0, 0, 0, 0, 0]\<rparr>)"
proof -
  have "length ps_w = MAX_NUMBER_OF_PROCESSES" "length (age si_w) = MAX_NUMBER_OF_PROCESSES"
    by (simp_all add: ps_w_def si_w_def MAX_NUMBER_OF_PROCESSES_def)
  from inactive_aging_selects [OF this, of 1]
  have "\<exists>w. os_Scheduler_InactiveAging ps_w 1 si_w =
          (of_nat w, si_w\<lparr>age := (aged ps_w (age si_w))[w := 0]\<rparr>) \<and>
        w < MAX_NUMBER_OF_PROCESSES \<and> (w = 0 \<or> state (ps_w ! w) = OS_PS_READY)"
    by blast
  moreover have "os_Scheduler_InactiveAging ps_w 1 si_w = (3, si_w\<lparr>age := [2, 2, 0, 0, 0, 0, 0, 0]\<rparr>)"
    by code_simp
  ultimately show ?thesis by simp
qed

text \<open>
  C4 as stated fails when slot 0 is not ready: with slot 0 running at age 10 and slot 1
  the only ready slot (priority 2, age 0), the winner is slot 0, not a ready slot.
\<close>

theorem inactive_aging_counterexample:
  "os_Scheduler_InactiveAging ps_a 1 si_a = (0, si_a\<lparr>age := [0, 2, 0, 0, 0, 0, 0, 0]\<rparr>) \<and>
   state (ps_a ! 0) = OS_PS_RUNNING \<and> state (ps_a ! 1) = OS_PS_READY"
  by code_simp

text \<open>
  C3 fails on the code. With slots 0, 1, 2 ready at priorities 1, 5, 3, a current slot 0
  and an expired time slice, os_Scheduler_RoundRobin returns slot 2, not slot 1 of the
  highest priority, and leaves the time slice at 0: its last loop compares each priority
  with a slot number and the time slice is never assigned.
\<close>

theorem round_robin_picks_by_slot_number:
  "os_Scheduler_RoundRobin ps_rr 0 si_w = Inr (2, si_w) \<and>
   map state ps_rr = [OS_PS_READY, OS_PS_READY, OS_PS_READY, OS_PS_UNUSED, OS_PS_UNUSED,
                      OS_PS_UNUSED, OS_PS_UNUSED, OS_PS_UNUSED] \<and>
   map priority ps_rr = [1, 5, 3, 0, 0, 0, 0, 0] \<and> timeSlice si_w = 0"
  by code_simp

section \<open>Properties of the scheduler interrupt\<close>

text \<open>
  The interrupt routine never assigns currentProcess: whatever the strategy returns, the
  variable has its old value when the routine ends (given that the task manager, which
  is not part of the sources, does not assign it).
\<close>

lemma cur_push_bytes: "currentProcess (fold push_byte bs k) = currentProcess k"
  by (induction bs arbitrary: k) (simp_all add: push_byte_def)

lemma cur_saveContext: "currentProcess (saveContext k) = currentProcess k"
  unfolding saveContext_def by (rule cur_push_bytes)

lemma cur_set: "currentProcess (set_sp pid a k) = currentProcess k"
  "currentProcess (set_checksum pid c k) = currentProcess k"
  "currentProcess (set_state pid s k) = currentProcess k"
  "currentProcess (restoreContext k) = currentProcess k"
  by (simp_all add: set_sp_def set_checksum_def set_state_def restoreContext_def)

lemma isr_keeps_currentProcess:
  assumes "\<And>k. currentProcess (taskman k) = currentProcess k"
    and "ISR pf taskman input rand k = Some (Inr k')"
  shows "currentProcess k' = currentProcess k"
  using assms(2) unfolding ISR_def Let_def
  by (auto split: option.splits sum.splits if_splits prod.splits
      simp: cur_saveContext cur_set assms(1))

text \<open>
  C1 fails on the code. The interrupt routine marks the slot that the strategy returns
  as OS_PS_RUNNING, but it never assigns currentProcess (the assignments are commented out
  in the source), so it loads the stack pointer saved for the interrupted slot. With slot
  0 interrupted and slot 1 ready under OS_SS_EVEN, the strategy returns 1 and slot 1
  becomes OS_PS_RUNNING, but the routine ends with currentProcess = 0 and SP = 0x0FD0 in
  the stack of slot 0, not with the stack pointer 0x0F9C saved for slot 1.
\<close>

theorem isr_resumes_interrupted_slot:
  "os_Scheduler_Even (os_processes (set_state 0 OS_PS_READY k_tick)) (currentProcess k_tick) =
     Some (Inr 1) \<and>
   sp (os_processes k_tick ! 1) = 0x0F9C \<and>
   map_option (map_sum id (\<lambda>k. (map state (os_processes k), currentProcess k, SP k)))
     (ISR pf0 id 0 0 k_tick) =
   Some (Inr ([OS_PS_READY, OS_PS_RUNNING, OS_PS_UNUSED, OS_PS_UNUSED, OS_PS_UNUSED,
               OS_PS_UNUSED, OS_PS_UNUSED, OS_PS_UNUSED], 0, 0x0FD0))"
  by code_simp

section \<open>The variable currentProc\<close>

lemma cp_push_bytes: "currentProc (fold push_byte bs k) = currentProc k"
  by (induction bs arbitrary: k) (simp_all add: push_byte_def)

lemma cp_saveContext: "currentProc (saveContext k) = currentProc k"
  unfolding saveContext_def by (rule cp_push_bytes)

lemma cp_restoreContext: "currentProc (restoreContext k) = currentProc k"
  by (simp add: restoreContext_def)

lemma cp_set: "currentProc (set_sp pid a k) = currentProc k"
  "currentProc (set_checksum pid c k) = currentProc k"
  "currentProc (set_state pid s k) = currentProc k"
  by (simp_all add: set_sp_def set_checksum_def set_state_def)

lemma cp_ISR:
  assumes "\<And>k. currentProc (taskman k) = currentProc k"
    and "ISR pf taskman input rand k = Some (Inr k')"
  shows "currentProc k' = currentProc k"
  using assms(2) unfolding ISR_def Let_def
  by (auto split: option.splits sum.splits if_splits prod.splits
      simp: cp_saveContext cp_restoreContext cp_set assms(1))

lemma cp_enter: "os_enterCriticalSection k = Inr k' \<Longrightarrow> currentProc k' = currentProc k"
  by (auto simp: os_enterCriticalSection_def Let_def split: if_splits)

lemma cp_leave: "os_leaveCriticalSection k = Inr k' \<Longrightarrow> currentProc k' = currentProc k"
  by (auto simp: os_leaveCriticalSection_def Let_def split: if_splits)

lemma cp_push_stack: "currentProc (push_on_process_stack pid b k) = currentProc k"
  by (simp add: push_on_process_stack_def Let_def)

lemma cp_push_stack_fold:
  "currentProc (fold (\<lambda>i. push_on_process_stack pid b) xs k) = currentProc k"
  by (induction xs arbitrary: k) (simp_all add: cp_push_stack)

lemma cp_exec: "os_exec pf prog prio k = Inr (pid, k') \<Longrightarrow> currentProc k' = currentProc k"
  unfolding os_exec_def Let_def
  by (auto split: sum.splits if_splits dest!: cp_enter cp_leave
      simp: cp_push_stack cp_push_stack_fold os_resetProcessSchedulingInformation_def)

lemma cp_exec_autostart:
  "exec_autostart pf progs k = Inr k' \<Longrightarrow> currentProc k' = currentProc k"
proof (induction progs arbitrary: k)
  case Nil
  then show ?case by simp
next
  case (Cons prog progs)
  then show ?case
    by (auto split: sum.splits prod.splits dest: cp_exec)
qed

lemma cp_init: "os_initScheduler pf autostart k = Inr k' \<Longrightarrow> currentProc k' = currentProc k"
  unfolding os_initScheduler_def Let_def
  by (auto split: list.splits sum.splits prod.splits if_splits
      dest!: cp_exec_autostart cp_exec)

lemma cp_start: "currentProc (os_startScheduler k) = 0"
  by (simp add: os_startScheduler_def Let_def cp_restoreContext cp_set)

lemma cp_set_strategy: "currentProc (os_setSchedulingStrategy v s k) = currentProc k"
  by (simp add: os_setSchedulingStrategy_def os_resetSchedulingInformation_def Let_def)

lemma cp_step:
  assumes "\<And>k. currentProc (taskman k) = currentProc k"
    and "step pf taskman ev k = Some (Inr k')" and "currentProc k = 0"
  shows "currentProc k' = 0"
proof (cases ev)
  case (Tick input rand)
  with assms show ?thesis by (auto simp: step_def dest: cp_ISR [rotated])
next
  case (Exec prog prio)
  with assms(2,3) show ?thesis
    by (auto simp: step_def split: sum.splits prod.splits dest: cp_exec)
next
  case StartScheduler
  with assms(2) show ?thesis by (auto simp: step_def cp_start)
next
  case (InitScheduler autostart)
  with assms(2,3) show ?thesis by (auto simp: step_def dest: cp_init)
next
  case (SetSchedulingStrategy v s)
  with assms(2,3) show ?thesis by (auto simp: step_def cp_set_strategy)
next
  case EnterCriticalSection
  with assms(2,3) show ?thesis by (auto simp: step_def dest: cp_enter)
next
  case LeaveCriticalSection
  with assms(2,3) show ?thesis by (auto simp: step_def dest: cp_leave)
qed

text \<open>
  C10. The only assignment to currentProc is the 0 of os_startScheduler; the interrupt
  routine works on the distinct variable currentProcess. So from a state with
  currentProc = 0 (its initial value), after every sequence of timer ticks and calls of
  os_exec, os_startScheduler, os_initScheduler, os_setSchedulingStrategy,
  os_enterCriticalSection and os_leaveCriticalSection that returns, os_getCurrentProc
  returns 0. The task manager that a tick may call is not part of the sources; it is
  assumed not to assign currentProc.
\<close>

theorem current_proc_always_zero:
  assumes "\<And>k. currentProc (taskman k) = currentProc k"
    and "currentProc k = 0"
    and "run pf taskman evs k = Some (Inr k')"
  shows "os_getCurrentProc k' = 0"
  using assms(2,3)
proof (induction evs arbitrary: k)
  case Nil
  then show ?case by (simp add: os_getCurrentProc_def)
next
  case (Cons ev evs)
  from Cons.prems(2) obtain k1 where s: "step pf taskman ev k = Some (Inr k1)"
    and r: "run pf taskman evs k1 = Some (Inr k')"
    by (auto split: option.splits sum.splits)
  from cp_step [OF assms(1) s Cons.prems(1)] have "currentProc k1 = 0" .
  from Cons.IH [OF this r] show ?case .
qed

text \<open>
  A run through a tick and each of the calls, from the state of the interrupted slot 0.
\<close>

theorem current_proc_always_zero_witness:
  "\<exists>k'. run pf0 id evs_w k_tick = Some (Inr k') \<and> os_getCurrentProc k' = 0"
proof -
  have "map_option (map_sum id (\<lambda>k. ())) (run pf0 id evs_w k_tick) = Some (Inr ())"
    by code_simp
  then obtain k' where r: "run pf0 id evs_w k_tick = Some (Inr k')"
    by (cases "run pf0 id evs_w k_tick") (auto simp: map_sum_def split: sum.splits)
  have "currentProc k_tick = 0" by (simp add: k_tick_def k0_def)
  from current_proc_always_zero [OF _ this r] have "os_getCurrentProc k' = 0" by simp
  with r show ?thesis by blast
qed

end
